theory Spec2Isabelle
  imports Complex_Main
begin

section \<open>Values of numpy's float64\<close>

text \<open>
  The arrays of \<^verbatim>\<open>seispy/plot.py\<close> hold float64 samples. A sample is modelled with
  the special values of IEEE 754 that the code can meet (both zeros, both infinities,
  a NaN with its sign bit), because \<^verbatim>\<open>np.signbit\<close> tells \<^verbatim>\<open>0.0\<close> from \<^verbatim>\<open>-0.0\<close> and
  because numpy's array division by zero returns an infinity or a NaN instead of raising.
  \<open>Finite 0\<close> is \<^verbatim>\<open>0.0\<close> and \<open>NegZero\<close> is \<^verbatim>\<open>-0.0\<close>. A value \<open>Finite r\<close> is a float64
  when \<open>r\<close> is a number of the binary64 format (\<open>is_float64\<close> below); every operation
  returns such a value, rounded as the hardware rounds it.
  An integer array (the result of \<^verbatim>\<open>np.arange\<close>) is modelled by the float64 values of
  its entries, which is exact for entries below \<^verbatim>\<open>2**53\<close>.
\<close>

datatype float64 = Finite real | NegZero | PosInf | NegInf | NaN bool

fun signbit :: "float64 \<Rightarrow> bool" where
  "signbit (Finite r) = (r < 0)"
| "signbit NegZero = True"
| "signbit PosInf = False"
| "signbit NegInf = True"
| "signbit (NaN s) = s"

fun is_nan :: "float64 \<Rightarrow> bool" where
  "is_nan (NaN s) = True"
| "is_nan x = False"

fun is_inf :: "float64 \<Rightarrow> bool" where
  "is_inf PosInf = True"
| "is_inf NegInf = True"
| "is_inf x = False"

fun is_zero :: "float64 \<Rightarrow> bool" where
  "is_zero (Finite r) = (r = 0)"
| "is_zero NegZero = True"
| "is_zero x = False"

fun is_finite :: "float64 \<Rightarrow> bool" where
  "is_finite (Finite r) = True"
| "is_finite NegZero = True"
| "is_finite x = False"

text \<open>The real number a finite float64 stands for (0 for the other values).\<close>

fun fval :: "float64 \<Rightarrow> real" where
  "fval (Finite r) = r"
| "fval x = 0"

definition mk_zero :: "bool \<Rightarrow> float64" where
  "mk_zero s = (if s then NegZero else Finite 0)"

definition mk_inf :: "bool \<Rightarrow> float64" where
  "mk_inf s = (if s then NegInf else PosInf)"

fun fneg :: "float64 \<Rightarrow> float64" where
  "fneg (Finite r) = (if r = 0 then NegZero else Finite (- r))"
| "fneg NegZero = Finite 0"
| "fneg PosInf = NegInf"
| "fneg NegInf = PosInf"
| "fneg (NaN s) = NaN (\<not> s)"

text \<open>
  Rounding to the nearest integer, a tie going to the even one.
\<close>

definition rne :: "real \<Rightarrow> int" where
  "rne x =
     (let f = \<lfloor>x\<rfloor>; d = x - of_int f
      in if d < 1 / 2 then f else if 1 / 2 < d then f + 1 else if even f then f else f + 1)"

text \<open>
  The float64 nearest to a real number (IEEE 754 binary64, rounding to nearest, ties to
  even, which is the mode numpy and Python compute in). A number of magnitude at least
  \<^verbatim>\<open>2**-1022\<close> has the exponent \<open>e\<close>, the integer part of its binary logarithm, and is
  rounded to a multiple of \<^verbatim>\<open>2**(e-52)\<close> (53 significant bits); a smaller one is rounded
  to a multiple of \<^verbatim>\<open>2**-1074\<close> (gradual underflow), to a zero of its sign when that
  multiple is zero. A result of magnitude \<^verbatim>\<open>2**1024\<close> or more overflows to the infinity
  of its sign.
\<close>

definition round64 :: "real \<Rightarrow> float64" where
  "round64 x =
     (if x = 0 then Finite 0
      else
        let e = (if \<bar>x\<bar> < 2 powr (- 1022) then - 1022 else \<lfloor>log 2 \<bar>x\<bar>\<rfloor>);
            u = 2 powr (of_int (e - 52));
            m = rne (x / u);
            r = of_int m * u
        in if 2 powr 1024 \<le> \<bar>r\<bar> then mk_inf (x < 0)
           else if m = 0 then mk_zero (x < 0)
           else Finite r)"

text \<open>The values of the type that are float64 numbers: rounding leaves them as they are.\<close>

definition is_float64 :: "float64 \<Rightarrow> bool" where
  "is_float64 x = (case x of Finite r \<Rightarrow> round64 r = Finite r | _ \<Rightarrow> True)"

text \<open>
  The four operations follow IEEE 754. An operand that is a NaN is returned as it is
  (the first one when both are); an invalid operation (\<^verbatim>\<open>0/0\<close>, \<^verbatim>\<open>inf/inf\<close>, \<^verbatim>\<open>0*inf\<close>,
  \<^verbatim>\<open>inf-inf\<close>) returns the default NaN, whose sign bit is set on x86-64; no statement
  below depends on the sign of a computed NaN. On finite operands the exact result is
  rounded by \<open>round64\<close>, so that a sum, product or quotient can overflow to an infinity
  and a product or quotient can underflow to a zero; a sum that is exactly zero is
  \<^verbatim>\<open>0.0\<close>, unless both operands are \<^verbatim>\<open>-0.0\<close>.
\<close>

definition fadd :: "float64 \<Rightarrow> float64 \<Rightarrow> float64" where
  "fadd x y =
     (if is_nan x then x else if is_nan y then y
      else if is_inf x then (if is_inf y \<and> signbit x \<noteq> signbit y then NaN True else x)
      else if is_inf y then y
      else if is_zero x \<and> is_zero y then mk_zero (signbit x \<and> signbit y)
      else if fval x + fval y = 0 then Finite 0
      else round64 (fval x + fval y))"

definition fsub :: "float64 \<Rightarrow> float64 \<Rightarrow> float64" where
  "fsub x y = (if is_nan x then x else if is_nan y then y else fadd x (fneg y))"

definition fmul :: "float64 \<Rightarrow> float64 \<Rightarrow> float64" where
  "fmul x y =
     (if is_nan x then x else if is_nan y then y
      else if (is_inf x \<and> is_zero y) \<or> (is_zero x \<and> is_inf y) then NaN True
      else if is_inf x \<or> is_inf y then mk_inf (signbit x \<noteq> signbit y)
      else if is_zero x \<or> is_zero y then mk_zero (signbit x \<noteq> signbit y)
      else round64 (fval x * fval y))"

definition fdiv :: "float64 \<Rightarrow> float64 \<Rightarrow> float64" where
  "fdiv x y =
     (if is_nan x then x else if is_nan y then y
      else if (is_inf x \<and> is_inf y) \<or> (is_zero x \<and> is_zero y) then NaN True
      else if is_inf x \<or> is_zero y then mk_inf (signbit x \<noteq> signbit y)
      else if is_zero x \<or> is_inf y then mk_zero (signbit x \<noteq> signbit y)
      else round64 (fval x / fval y))"

text \<open>The comparison \<^verbatim>\<open><=\<close> of two float64: false as soon as one side is a NaN.\<close>

fun fle :: "float64 \<Rightarrow> float64 \<Rightarrow> bool" where
  "fle (NaN s) y = False"
| "fle x (NaN s) = False"
| "fle NegInf y = True"
| "fle x PosInf = True"
| "fle PosInf y = False"
| "fle x NegInf = False"
| "fle x y = (fval x \<le> fval y)"

section \<open>Python errors and numpy helpers\<close>

text \<open>
  The exceptions the two functions can end with. \<open>OverflowError\<close> is what Python raises
  when an \<^verbatim>\<open>int\<close> beyond the range of float64 is converted to a float; its message
  differs between versions and is left out.
\<close>

datatype py_error = TypeError string | ValueError string | IndexError | OverflowError

text \<open>\<^verbatim>\<open>np.arange(n)\<close>.\<close>

definition arange :: "nat \<Rightarrow> float64 list" where
  "arange n = map (\<lambda>i. Finite (real i)) [0..<n]"

text \<open>\<^verbatim>\<open>np.signbit\<close> on an array.\<close>

definition np_signbit :: "float64 list \<Rightarrow> bool list" where
  "np_signbit xs = map signbit xs"

text \<open>\<^verbatim>\<open>np.diff\<close> on a boolean array: \<^verbatim>\<open>a[1:] != a[:-1]\<close>.\<close>

definition np_diff_bool :: "bool list \<Rightarrow> bool list" where
  "np_diff_bool bs = map (\<lambda>(a, b). a \<noteq> b) (zip (tl bs) (butlast bs))"

text \<open>\<^verbatim>\<open>np.where(bs)[0]\<close>: the indices of the true entries, ascending.\<close>

definition np_where :: "bool list \<Rightarrow> nat list" where
  "np_where bs = filter (\<lambda>i. bs ! i) [0..<length bs]"

text \<open>
  Indexing an array with an array of (non-negative) indices, \<^verbatim>\<open>xs[idx]\<close>: numpy raises
  IndexError when an index is out of bounds.
\<close>

fun take_idx :: "'a list \<Rightarrow> nat list \<Rightarrow> py_error + 'a list" where
  "take_idx xs [] = Inr []"
| "take_idx xs (i # is) =
     (if i < length xs
      then (case take_idx xs is of Inl e \<Rightarrow> Inl e | Inr ys \<Rightarrow> Inr (xs ! i # ys))
      else Inl IndexError)"

text \<open>
  \<^verbatim>\<open>np.split(xs, idxs)\<close> with a list of indices: numpy cuts at
  \<^verbatim>\<open>div_points = [0] + idxs + [len(xs)]\<close> and returns the slices
  \<^verbatim>\<open>xs[div_points[i]:div_points[i + 1]]\<close>; a Python slice clips at the end of the
  array and is empty when its start is not below its end.
\<close>

definition py_slice :: "nat \<Rightarrow> nat \<Rightarrow> 'a list \<Rightarrow> 'a list" where
  "py_slice st en xs = take (en - st) (drop st xs)"

definition np_split :: "'a list \<Rightarrow> nat list \<Rightarrow> 'a list list" where
  "np_split xs idxs =
     map (\<lambda>(st, en). py_slice st en xs) (zip (0 # idxs) (idxs @ [length xs]))"

section \<open>The zero-crossing inserter\<close>

text \<open>Line 19: \<^verbatim>\<open>zc_idx = np.where(np.diff(np.signbit(trace)))[0]\<close>.\<close>

definition zc_idx :: "float64 list \<Rightarrow> nat list" where
  "zc_idx trace = np_where (np_diff_bool (np_signbit trace))"

text \<open>
  Lines 24 and 25, elementwise on the arrays \<open>x1\<close>, \<open>x2\<close>, \<open>y1\<close>, \<open>y2\<close>:
  \<^verbatim>\<open>a = (y2 - y1) / (x2 - x1)\<close> and \<^verbatim>\<open>tt_zero = x1 - y1 / a\<close>.
\<close>

definition crossing :: "float64 \<Rightarrow> float64 \<Rightarrow> float64 \<Rightarrow> float64 \<Rightarrow> float64" where
  "crossing x1 x2 y1 y2 =
     (let a = fdiv (fsub y2 y1) (fsub x2 x1) in fsub x1 (fdiv y1 a))"

fun tt_zero_of ::
  "float64 list \<Rightarrow> float64 list \<Rightarrow> float64 list \<Rightarrow> float64 list \<Rightarrow> float64 list" where
  "tt_zero_of (x1 # x1s) (x2 # x2s) (y1 # y1s) (y2 # y2s) =
     crossing x1 x2 y1 y2 # tt_zero_of x1s x2s y1s y2s"
| "tt_zero_of x1s x2s y1s y2s = []"

text \<open>
  Lines 34 to 38: the loop over \<^verbatim>\<open>range(len(tt_zero))\<close>, on the pair
  \<open>(tt_zi, trace_zi)\<close>. Each subscript is checked as Python checks it.
\<close>

fun insert_loop ::
  "float64 list \<Rightarrow> float64 list list \<Rightarrow> float64 list list \<Rightarrow> nat list \<Rightarrow>
   float64 list \<times> float64 list \<Rightarrow> py_error + (float64 list \<times> float64 list)" where
  "insert_loop tt_zero tt_split trace_split [] acc = Inr acc"
| "insert_loop tt_zero tt_split trace_split (i # is) (tt_zi, trace_zi) =
     (if i < length tt_zero \<and> i + 1 < length tt_split \<and> i + 1 < length trace_split
      then insert_loop tt_zero tt_split trace_split is
             (tt_zi @ [tt_zero ! i] @ tt_split ! (i + 1),
              trace_zi @ [Finite 0] @ trace_split ! (i + 1))
      else Inl IndexError)"

text \<open>
  \<^verbatim>\<open>insert_zeros(trace, tt=None)\<close>. The result is the pair
  \<open>(trace_zi, tt_zi)\<close>, in the order of the \<^verbatim>\<open>return\<close> statement.
\<close>

definition insert_zeros ::
  "float64 list \<Rightarrow> float64 list option \<Rightarrow> py_error + (float64 list \<times> float64 list)" where
  "insert_zeros trace tt_arg =
     (let tt = (case tt_arg of None \<Rightarrow> arange (length trace) | Some t \<Rightarrow> t);
          zc = zc_idx trace
      in case take_idx tt zc of Inl e \<Rightarrow> Inl e | Inr x1 \<Rightarrow>
         (case take_idx tt (map Suc zc) of Inl e \<Rightarrow> Inl e | Inr x2 \<Rightarrow>
         (case take_idx trace zc of Inl e \<Rightarrow> Inl e | Inr y1 \<Rightarrow>
         (case take_idx trace (map Suc zc) of Inl e \<Rightarrow> Inl e | Inr y2 \<Rightarrow>
         (let tt_zero = tt_zero_of x1 x2 y1 y2;
              tt_split = np_split tt (map Suc zc);
              trace_split = np_split trace (map Suc zc)
          in case (tt_split, trace_split) of
               (tt0 # _, trace0 # _) \<Rightarrow>
                 (case insert_loop tt_zero tt_split trace_split [0..<length tt_zero]
                         (tt0, trace0) of
                    Inl e \<Rightarrow> Inl e
                  | Inr (tt_zi, trace_zi) \<Rightarrow> Inr (trace_zi, tt_zi))
             | _ \<Rightarrow> Inl IndexError)))))"

text \<open>
  The set of sign changes in the words of the specification: the indices \<open>i\<close> with
  \<open>sign(trace[i]) \<noteq> sign(trace[i+1])\<close>, the sign of a sample being its sign bit.
\<close>

definition sign_changes :: "float64 list \<Rightarrow> nat set" where
  "sign_changes trace =
     {i. Suc i < length trace \<and> signbit (trace ! i) \<noteq> signbit (trace ! Suc i)}"

section \<open>The input normalizer\<close>

text \<open>
  The Python values \<^verbatim>\<open>wiggle_input_check\<close> can be called with. An \<^verbatim>\<open>ndarray\<close> is
  its shape and its entries in row-major order; a well-formed one has as many entries
  as its shape says. The builtin values stand for everything whose type is not defined
  in the module \<^verbatim>\<open>numpy\<close>.
\<close>

datatype pyobj =
    PyNone
  | PyBool bool
  | PyInt int
  | PyFloat float64
  | PyStr string
  | NdArray "nat list" "float64 list"

definition wf_array :: "pyobj \<Rightarrow> bool" where
  "wf_array a = (case a of NdArray shape flat \<Rightarrow> length flat = prod_list shape | _ \<Rightarrow> False)"

text \<open>\<^verbatim>\<open>np.sqrt\<close> on one float64: the square root, rounded.\<close>

fun fsqrt :: "float64 \<Rightarrow> float64" where
  "fsqrt (Finite r) = (if r < 0 then NaN True else if r = 0 then Finite 0 else round64 (sqrt r))"
| "fsqrt NegZero = NegZero"
| "fsqrt PosInf = PosInf"
| "fsqrt NegInf = NaN True"
| "fsqrt (NaN s) = NaN s"

text \<open>
  \<^verbatim>\<open>np.minimum\<close> and \<^verbatim>\<open>np.maximum\<close> on two float64: a NaN operand is returned,
  otherwise numpy's loop keeps the first operand when \<^verbatim>\<open>in1 <= in2\<close>
  (\<^verbatim>\<open>in1 >= in2\<close> for the maximum).
\<close>

definition np_minimum :: "float64 \<Rightarrow> float64 \<Rightarrow> float64" where
  "np_minimum a b = (if is_nan a then a else if is_nan b then b else if fle a b then a else b)"

definition np_maximum :: "float64 \<Rightarrow> float64 \<Rightarrow> float64" where
  "np_maximum a b = (if is_nan a then a else if is_nan b then b else if fle b a then a else b)"

text \<open>
  \<^verbatim>\<open>np.min\<close> and \<^verbatim>\<open>np.max\<close> of a one-dimensional array: the reduction starts from
  the first entry, and numpy raises ValueError on an empty array.
\<close>

definition np_min :: "float64 list \<Rightarrow> py_error + float64" where
  "np_min xs =
     (case xs of
        [] \<Rightarrow> Inl (ValueError
          ''zero-size array to reduction operation minimum which has no identity'')
      | x # r \<Rightarrow> Inr (foldl np_minimum x r))"

definition np_max :: "float64 list \<Rightarrow> py_error + float64" where
  "np_max xs =
     (case xs of
        [] \<Rightarrow> Inl (ValueError
          ''zero-size array to reduction operation maximum which has no identity'')
      | x # r \<Rightarrow> Inr (foldl np_maximum x r))"

text \<open>\<^verbatim>\<open>np.diff\<close> on a one-dimensional float array: \<^verbatim>\<open>a[1:] - a[:-1]\<close>.\<close>

definition np_diff :: "float64 list \<Rightarrow> float64 list" where
  "np_diff xs = map (\<lambda>(a, b). fsub a b) (zip (tl xs) (butlast xs))"

text \<open>
  The sum of the entries of one column (0.0 for an empty one). \<^verbatim>\<open>np.add.reduce\<close> along
  axis 0 of a two-dimensional array in row-major order adds the rows one after the other,
  starting from the first, each addition rounded.
\<close>

definition np_sum :: "float64 list \<Rightarrow> float64" where
  "np_sum xs = (case xs of [] \<Rightarrow> Finite 0 | x # r \<Rightarrow> foldl fadd x r)"

text \<open>
  \<^verbatim>\<open>np.std\<close> of one column (numpy's \<^verbatim>\<open>_var\<close> with \<^verbatim>\<open>ddof = 0\<close>, then the square
  root): the mean is the sum divided by the count, the deviations are squared, summed and
  divided by the count. Every step is a float64 operation, so that the result is the
  standard deviation up to rounding only, and a large entry overflows the sum of squares
  to an infinity. For an empty column numpy divides 0.0 by 0 and returns a NaN.
\<close>

definition np_std :: "float64 list \<Rightarrow> float64" where
  "np_std col =
     (let n = Finite (real (length col));
          arrmean = fdiv (np_sum col) n;
          x = map (\<lambda>v. fsub v arrmean) col;
          x2 = map (\<lambda>v. fmul v v) x
      in fsqrt (fdiv (np_sum x2) n))"

text \<open>\<^verbatim>\<open>data[:, j]\<close> of an array of shape \<open>(r, c)\<close> given by its entries.\<close>

definition column :: "nat \<Rightarrow> nat \<Rightarrow> float64 list \<Rightarrow> nat \<Rightarrow> float64 list" where
  "column r c flat j = map (\<lambda>i. flat ! (i * c + j)) [0..<r]"

text \<open>\<^verbatim>\<open>np.std(data, axis=0)\<close>: the standard deviation of every column.\<close>

definition np_std_axis0 :: "nat \<Rightarrow> nat \<Rightarrow> float64 list \<Rightarrow> float64 list" where
  "np_std_axis0 r c flat = map (\<lambda>j. np_std (column r c flat j)) [0..<c]"

text \<open>
  The value of \<^verbatim>\<open>sf\<close>. \<open>None\<close> is a value that fails
  \<^verbatim>\<open>isinstance(sf, (int, float))\<close> on line 90 (\<^verbatim>\<open>bool\<close> is a subclass of \<^verbatim>\<open>int\<close>).
  A value that passes is, on line 98, a factor of a product with a float64 array, where
  it is converted to float64: an \<^verbatim>\<open>int\<close> is rounded to the nearest float64, and one
  whose rounding is beyond the range of float64 raises OverflowError there.
\<close>

fun sf_value :: "pyobj \<Rightarrow> (py_error + float64) option" where
  "sf_value (PyBool b) = Some (Inr (Finite (if b then 1 else 0)))"
| "sf_value (PyInt n) =
     Some (if is_inf (round64 (of_int n)) then Inl OverflowError else Inr (round64 (of_int n)))"
| "sf_value (PyFloat f) = Some (Inr f)"
| "sf_value x = None"

text \<open>Lines 59 to 71: the check of \<^verbatim>\<open>tt\<close>, returning the value of \<^verbatim>\<open>tt\<close> afterwards.\<close>

definition check_tt :: "nat list \<Rightarrow> pyobj \<Rightarrow> py_error + pyobj" where
  "check_tt dshape tt =
     (case tt of
        PyNone \<Rightarrow> Inr (NdArray [dshape ! 0] (arange (dshape ! 0)))
      | NdArray tshape tflat \<Rightarrow>
          if length tshape \<noteq> 1 then Inl (ValueError ''tt must be a 1D array'')
          else if tshape ! 0 \<noteq> dshape ! 0
            then Inl (ValueError ''tt must have same as data's rows'')
          else Inr tt
      | _ \<Rightarrow> Inl (TypeError ''tt must be a numpy array''))"

text \<open>
  Lines 73 to 87: the check of \<^verbatim>\<open>xx\<close>. Its third test is written on \<^verbatim>\<open>tt\<close>
  (\<^verbatim>\<open>tt.shape[0] != data.shape[0]\<close>), with the messages of the check of \<^verbatim>\<open>tt\<close>;
  \<open>tshape\<close> is the shape of \<^verbatim>\<open>tt\<close> at that point.
\<close>

definition check_xx :: "nat list \<Rightarrow> nat list \<Rightarrow> pyobj \<Rightarrow> py_error + pyobj" where
  "check_xx dshape tshape xx =
     (case xx of
        PyNone \<Rightarrow> Inr (NdArray [dshape ! 1] (arange (dshape ! 1)))
      | NdArray xshape xflat \<Rightarrow>
          if length xshape \<noteq> 1 then Inl (ValueError ''tt must be a 1D array'')
          else if tshape ! 0 \<noteq> dshape ! 0
            then Inl (ValueError ''tt must have same as data's rows'')
          else Inr xx
      | _ \<Rightarrow> Inl (TypeError ''tt must be a numpy array''))"

fun array_shape :: "pyobj \<Rightarrow> nat list" where
  "array_shape (NdArray shape flat) = shape"
| "array_shape x = []"

fun array_flat :: "pyobj \<Rightarrow> float64 list" where
  "array_flat (NdArray shape flat) = flat"
| "array_flat x = []"

text \<open>
  Lines 93 to 98: the trace spacing \<^verbatim>\<open>ts = np.min(np.diff(xx))\<close>, the greatest
  standard deviation \<^verbatim>\<open>data_max_std = np.max(np.std(data, axis=0))\<close> and the rescaled
  array \<^verbatim>\<open>data / data_max_std * ts * sf\<close>, evaluated from left to right on every
  entry, each of the three operations rounded. The conversion of \<^verbatim>\<open>sf\<close> belongs to
  the last product, after the two reductions. The result is the pair of the new
  \<^verbatim>\<open>data\<close> and \<^verbatim>\<open>ts\<close>.
\<close>

definition rescale ::
  "nat list \<Rightarrow> float64 list \<Rightarrow> float64 list \<Rightarrow> py_error + float64 \<Rightarrow>
   py_error + (pyobj \<times> float64)" where
  "rescale dshape dflat xflat sf =
     (case np_min (np_diff xflat) of
        Inl e \<Rightarrow> Inl e
      | Inr ts \<Rightarrow>
          (case np_max (np_std_axis0 (dshape ! 0) (dshape ! 1) dflat) of
             Inl e \<Rightarrow> Inl e
           | Inr data_max_std \<Rightarrow>
               (case sf of
                  Inl e \<Rightarrow> Inl e
                | Inr sfv \<Rightarrow>
                    Inr (NdArray dshape
                           (map (\<lambda>d. fmul (fmul (fdiv d data_max_std) ts) sfv) dflat),
                         ts))))"

text \<open>
  \<^verbatim>\<open>wiggle_input_check(data, tt, xx, sf, verbose)\<close>, lines 43 to 100. The lines printed
  in verbose mode are not part of the result and are left out.
\<close>

definition wiggle_input_check ::
  "pyobj \<Rightarrow> pyobj \<Rightarrow> pyobj \<Rightarrow> pyobj \<Rightarrow> pyobj \<Rightarrow>
   py_error + (pyobj \<times> pyobj \<times> pyobj \<times> float64)" where
  "wiggle_input_check data tt xx sf verbose =
     (case verbose of
        PyBool v \<Rightarrow>
          (case data of
             NdArray dshape dflat \<Rightarrow>
               if length dshape \<noteq> 2 then Inl (ValueError ''data must be a 2D array'')
               else
                 (case check_tt dshape tt of
                    Inl e \<Rightarrow> Inl e
                  | Inr tt' \<Rightarrow>
                      (case check_xx dshape (array_shape tt') xx of
                         Inl e \<Rightarrow> Inl e
                       | Inr xx' \<Rightarrow>
                           (case sf_value sf of
                              None \<Rightarrow> Inl (TypeError ''Strech factor(sf) must be a number'')
                            | Some sfv \<Rightarrow>
                                (case rescale dshape dflat (array_flat xx') sfv of
                                   Inl e \<Rightarrow> Inl e
                                 | Inr (data', ts) \<Rightarrow> Inr (data', tt', xx', ts)))))
           | _ \<Rightarrow> Inl (TypeError ''data must be a numpy array''))
      | _ \<Rightarrow> Inl (TypeError ''verbose must be a bool''))"

text \<open>
  The product \<^verbatim>\<open>k * data\<close> of a scalar and an array: every entry is multiplied by the
  scalar.
\<close>

definition scale_array :: "float64 \<Rightarrow> pyobj \<Rightarrow> pyobj" where
  "scale_array k a =
     (case a of NdArray shape flat \<Rightarrow> NdArray shape (map (\<lambda>d. fmul k d) flat) | _ \<Rightarrow> a)"

section \<open>Reference functions used in the proofs\<close>

text \<open>
  The inserter written as one pass over the list of (amplitude, coordinate) pairs: a
  synthetic point follows every sample whose sign bit differs from its successor's.
  \<open>insert_zeros\<close> is proved equal to it below; no claim is stated about it.
\<close>

fun splice :: "(float64 \<times> float64) list \<Rightarrow> (float64 \<times> float64) list" where
  "splice ((y1, x1) # (y2, x2) # r) =
     (y1, x1) # (if signbit y1 \<noteq> signbit y2 then [(Finite 0, crossing x1 x2 y1 y2)] else [])
       @ splice ((y2, x2) # r)"
| "splice r = r"

text \<open>The same pass on the amplitudes alone.\<close>

fun ins0 :: "float64 list \<Rightarrow> float64 list" where
  "ins0 [] = []"
| "ins0 [x] = [x]"
| "ins0 (x # y # r) = x # (if signbit x \<noteq> signbit y then [Finite 0] else []) @ ins0 (y # r)"

text \<open>The array \<^verbatim>\<open>tt_zero\<close> as a function of the trace and the axis.\<close>

definition tz_of :: "float64 list \<Rightarrow> float64 list \<Rightarrow> float64 list" where
  "tz_of trace tt =
     map (\<lambda>i. crossing (tt ! i) (tt ! Suc i) (trace ! i) (trace ! Suc i)) (zc_idx trace)"

text \<open>
  The positions of the synthetic points in the output: the \<open>k\<close>-th one follows
  the first \<open>zc_idx[k] + 1\<close> samples and the \<open>k\<close> synthetic points before it.
\<close>

definition inserted_positions :: "float64 list \<Rightarrow> nat set" where
  "inserted_positions trace = (\<lambda>k. zc_idx trace ! k + 1 + k) ` {..<length (zc_idx trace)}"


section \<open>Rounding to float64\<close>

lemma rne_int: "rne (of_int n) = n"
  by (simp add: rne_def)

lemma rne_near:
  assumes "\<bar>x - of_int M\<bar> < 1 / 2"
  shows "rne x = M"
proof (cases "of_int M \<le> x")
  case True
  then have "\<lfloor>x\<rfloor> = M" using assms by (intro floor_unique) auto
  then show ?thesis using assms True by (simp add: rne_def)
next
  case False
  then have f: "\<lfloor>x\<rfloor> = M - 1" using assms by (intro floor_unique) auto
  have "1 / 2 < x - of_int (M - 1)" using assms False by simp
  then show ?thesis using f by (simp add: rne_def Let_def)
qed

lemma exponent_bounds:
  assumes "x \<noteq> 0" and "\<not> \<bar>x\<bar> < 2 powr (- 1022)"
  shows "2 powr (of_int \<lfloor>log 2 \<bar>x\<bar>\<rfloor>) \<le> \<bar>x\<bar>"
    and "\<bar>x\<bar> < 2 powr (of_int (\<lfloor>log 2 \<bar>x\<bar>\<rfloor> + 1))"
    and "- 1022 \<le> \<lfloor>log 2 \<bar>x\<bar>\<rfloor>"
proof -
  have pos: "0 < \<bar>x\<bar>" using assms(1) by simp
  from floor_log_eq_powr_iff [OF pos, of 2 "\<lfloor>log 2 \<bar>x\<bar>\<rfloor>"]
  show b1: "2 powr (of_int \<lfloor>log 2 \<bar>x\<bar>\<rfloor>) \<le> \<bar>x\<bar>"
    and b2: "\<bar>x\<bar> < 2 powr (of_int (\<lfloor>log 2 \<bar>x\<bar>\<rfloor> + 1))" by simp_all
  have "2 powr (- 1022) \<le> \<bar>x\<bar>" using assms(2) by simp
  then have "(2::real) powr (- 1022) < 2 powr (of_int (\<lfloor>log 2 \<bar>x\<bar>\<rfloor> + 1))"
    using b2 by linarith
  then have "(- 1022 :: real) < of_int (\<lfloor>log 2 \<bar>x\<bar>\<rfloor> + 1)"
    by (simp only: powr_less_cancel_iff) 
  then show "- 1022 \<le> \<lfloor>log 2 \<bar>x\<bar>\<rfloor>" by linarith
qed

lemma round64_exact:
  assumes M: "M \<noteq> 0" "\<bar>M\<bar> < 2 ^ 53" and q: "- 1074 \<le> q"
    and ov: "\<bar>of_int M * 2 powr (of_int q)\<bar> < (2::real) powr 1024"
  shows "round64 (of_int M * 2 powr (of_int q)) = Finite (of_int M * 2 powr (of_int q))"
proof -
  let ?x = "of_int M * 2 powr (of_int q) :: real"
  have x0: "?x \<noteq> 0" using M(1) by simp
  define e where "e = (if \<bar>?x\<bar> < 2 powr (- 1022) then - 1022 else \<lfloor>log 2 \<bar>?x\<bar>\<rfloor>)"
  have ax: "\<bar>?x\<bar> = of_int \<bar>M\<bar> * 2 powr (of_int q)" by (simp add: abs_mult)
  have e_le: "e \<le> q + 52"
  proof (cases "\<bar>?x\<bar> < 2 powr (- 1022)")
    case True
    then show ?thesis using q by (simp add: e_def)
  next
    case False
    from exponent_bounds(1) [OF x0 False]
    have "2 powr (of_int e) \<le> \<bar>?x\<bar>" using False by (simp add: e_def)
    also have "\<bar>?x\<bar> < 2 ^ 53 * 2 powr (of_int q)"
      unfolding ax using M(2) by (intro mult_strict_right_mono) (simp_all flip: of_int_less_iff)
    also have "(2::real) ^ 53 * 2 powr (of_int q) = 2 powr (of_int (q + 53))"
      by (simp add: powr_add)
    finally have "(of_int e :: real) < of_int (q + 53)"
      by (simp only: powr_less_cancel_iff) 
    then show ?thesis by linarith
  qed
  define k where "k = nat (q + 52 - e)"
  have k: "of_int q - of_int (e - 52) = (real k)" using e_le by (simp add: k_def)
  let ?u = "2 powr (of_int (e - 52)) :: real"
  have "?x / ?u = of_int M * 2 powr (of_int q - of_int (e - 52))"
    by (simp add: powr_diff)
  also have "\<dots> = of_int M * 2 ^ k"
    unfolding k by (simp add: powr_realpow)
  also have "\<dots> = of_int (M * 2 ^ k)" by simp
  finally have div: "?x / ?u = of_int (M * 2 ^ k)" .
  have m: "rne (?x / ?u) = M * 2 ^ k" unfolding div by (rule rne_int)
  have upos: "0 < ?u" by simp
  have r: "of_int (M * 2 ^ k) * ?u = ?x"
    using div upos by (metis less_irrefl nonzero_eq_divide_eq)
  have mnz: "M * 2 ^ k \<noteq> 0" using M(1) by simp
  show ?thesis
    unfolding round64_def Let_def e_def [symmetric] m r
    using x0 ov mnz by simp
qed


lemma round64_near:
  assumes lo: "2 powr (of_int (q + 52)) \<le> \<bar>x\<bar>" and hi: "\<bar>x\<bar> < 2 powr (of_int (q + 53))"
    and q: "- 1074 \<le> q" "q \<le> 970"
    and near: "\<bar>x / 2 powr (of_int q) - of_int M\<bar> < 1 / 2"
  shows "round64 x = Finite (of_int M * 2 powr (of_int q))"
proof -
  have pos: "0 < \<bar>x\<bar>" using lo by (smt (verit) powr_gt_zero)
  then have x0: "x \<noteq> 0" by simp
  have "(2::real) powr (- 1022) \<le> 2 powr (of_int (q + 52))"
    using q(1) by simp
  then have nsub: "\<not> \<bar>x\<bar> < 2 powr (- 1022)" using lo by linarith
  have e: "\<lfloor>log 2 \<bar>x\<bar>\<rfloor> = q + 52"
    using floor_log_eq_powr_iff [OF pos, of 2 "q + 52"] lo hi by (simp add: add.commute)
  have u: "of_int (q + 52 - 52) = (of_int q :: real)" by simp
  have m: "rne (x / 2 powr (of_int q)) = M" using near by (rule rne_near)
  have upos: "0 < (2::real) powr (of_int q)" by simp
  have "\<bar>of_int M\<bar> \<le> \<bar>x / 2 powr (of_int q)\<bar> + 1 / 2" using near by linarith
  also have "\<bar>x / 2 powr (of_int q)\<bar> = \<bar>x\<bar> / 2 powr (of_int q)" by simp
  also have "\<dots> < 2 powr (of_int (q + 53)) / 2 powr (of_int q)"
    using hi upos by (simp add: divide_strict_right_mono)
  also have "2 powr (of_int (q + 53)) / 2 powr (of_int q) = (2::real) ^ 53"
    by (simp add: powr_add)
  finally have Mb: "\<bar>real_of_int M\<bar> < 2 ^ 53 + 1 / 2" by simp
  then have "real_of_int \<bar>M\<bar> < real_of_int (2 ^ 53 + 1)" by simp
  then have "\<bar>M\<bar> < 2 ^ 53 + 1" by (simp only: of_int_less_iff)
  then have "\<bar>M\<bar> \<le> 2 ^ 53" by simp
  then have "real_of_int \<bar>M\<bar> \<le> real_of_int (2 ^ 53)" by (simp only: of_int_le_iff)
  then have Mle: "\<bar>real_of_int M\<bar> \<le> 2 ^ 53" by simp
  have "\<bar>real_of_int M * 2 powr (of_int q)\<bar> = \<bar>real_of_int M\<bar> * 2 powr (of_int q)"
    by (simp add: abs_mult)
  also have "\<dots> \<le> 2 ^ 53 * 2 powr (of_int q)"
    using Mle by (intro mult_right_mono) simp_all
  also have "\<dots> = 2 powr (of_int (q + 53))" by (simp add: powr_add)
  also have "\<dots> < 2 powr 1024"
    using q(2) by (simp only: powr_less_cancel_iff)
  finally have ov: "\<not> 2 powr 1024 \<le> \<bar>real_of_int M * 2 powr (of_int q)\<bar>" by simp
  have "1 / 2 < \<bar>x / 2 powr (of_int q)\<bar>"
  proof -
    have "(2::real) ^ 52 = 2 powr (of_int (q + 52)) / 2 powr (of_int q)"
      by (simp add: powr_add)
    also have "\<dots> \<le> \<bar>x\<bar> / 2 powr (of_int q)"
      using lo upos by (simp add: divide_right_mono)
    finally have "(2::real) ^ 52 \<le> \<bar>x\<bar> / 2 powr (of_int q)" .
    moreover have "\<bar>x / 2 powr (of_int q)\<bar> = \<bar>x\<bar> / 2 powr (of_int q)" by simp
    moreover have "1 / 2 < (2::real) ^ 52" by simp
    ultimately show ?thesis by linarith
  qed
  then have mnz: "M \<noteq> 0" using near by auto
  show ?thesis
    unfolding round64_def Let_def using x0 nsub ov mnz
    by (simp only: e u m if_False)
qed

lemma round64_underflow:
  assumes "x \<noteq> 0" and "\<bar>x\<bar> < 2 powr (- 1075)"
  shows "round64 x = mk_zero (x < 0)"
proof -
  have "(2::real) powr (- 1075) < 2 powr (- 1022)"
    by simp
  then have sub: "\<bar>x\<bar> < 2 powr (- 1022)" using assms(2) by linarith
  have u: "(2::real) powr (of_int (- 1022 - 52)) = 2 powr (- 1074)" by simp
  have "\<bar>x / 2 powr (- 1074)\<bar> = \<bar>x\<bar> / 2 powr (- 1074)" by simp
  also have "\<dots> < 2 powr (- 1075) / 2 powr (- 1074)"
    using assms(2) by (simp add: divide_strict_right_mono)
  also have "\<dots> = 2 powr (- 1075 - (- 1074))" by (simp only: powr_diff)
  also have "\<dots> = 1 / 2" by simp
  finally have "\<bar>x / 2 powr (- 1074) - of_int 0\<bar> < 1 / 2" by simp
  then have m: "rne (x / 2 powr (- 1074)) = 0" by (rule rne_near)
  show ?thesis
    unfolding round64_def Let_def using assms(1) sub
    by (simp only: if_True if_False u m) simp
qed

lemma round64_int:
  assumes "n \<noteq> 0" and "\<bar>n\<bar> < 2 ^ 53"
  shows "round64 (of_int n) = Finite (of_int n)"
proof -
  have "\<bar>real_of_int n\<bar> < 2 ^ 53" using assms(2) by (simp flip: of_int_less_iff)
  also have "\<dots> < (2::real) powr 1024" by simp
  finally have "\<bar>of_int n * 2 powr (of_int 0)\<bar> < (2::real) powr 1024" by simp
  from round64_exact [OF assms, of 0, OF _ this] show ?thesis by simp
qed

lemma round64_numeral:
  assumes "(numeral k :: int) < 2 ^ 53"
  shows "round64 (numeral k) = Finite (numeral k)"
    and "round64 (- numeral k) = Finite (- numeral k)"
  using round64_int [of "numeral k"] round64_int [of "- numeral k"] assms by simp_all

lemma round64_vals:
  "round64 1 = Finite 1" "round64 2 = Finite 2" "round64 3 = Finite 3" "round64 4 = Finite 4"
  "round64 8 = Finite 8" "round64 16 = Finite 16" "round64 32 = Finite 32"
  "round64 (- 1) = Finite (- 1)" "round64 (- 2) = Finite (- 2)" "round64 (- 4) = Finite (- 4)"
  using round64_int [of 1] round64_int [of 2] round64_int [of 3] round64_int [of 4]
    round64_int [of 8] round64_int [of 16] round64_int [of 32]
    round64_int [of "- 1"] round64_int [of "- 2"] round64_int [of "- 4"]
  by simp_all

lemma round64_half:
  assumes "n \<noteq> 0" and "\<bar>n\<bar> < 2 ^ 53"
  shows "round64 (of_int n / 2) = Finite (of_int n / 2)"
proof -
  have "\<bar>real_of_int n\<bar> < 2 ^ 53" using assms(2) by (simp flip: of_int_less_iff)
  then have "\<bar>real_of_int n * 2 powr (of_int (- 1))\<bar> < 2 ^ 53" by simp
  also have "\<dots> < (2::real) powr 1024" by simp
  finally have "\<bar>of_int n * 2 powr (of_int (- 1))\<bar> < (2::real) powr 1024" .
  from round64_exact [OF assms, of "- 1", OF _ this] show ?thesis by simp
qed

lemma round64_halves:
  "round64 (1 / 2) = Finite (1 / 2)" "round64 (- 1 / 2) = Finite (- 1 / 2)"
  "round64 (3 / 2) = Finite (3 / 2)" "round64 (- (1 / 2)) = Finite (- (1 / 2))"
  using round64_half [of 1] round64_half [of "- 1"] round64_half [of 3]
  by simp_all

lemma round64_dyadic:
  assumes "M \<noteq> 0" and "\<bar>M\<bar> < 2 ^ 53" and "n \<le> 1074"
  shows "round64 (of_int M / 2 ^ n) = Finite (of_int M / 2 ^ n)"
proof -
  have p: "(2::real) powr (of_int (- int n)) = 1 / 2 ^ n"
    by (simp add: powr_minus powr_realpow inverse_eq_divide)
  have "\<bar>real_of_int M\<bar> < 2 ^ 53" using assms(2) by (simp flip: of_int_less_iff)
  moreover have "\<bar>real_of_int M / 2 ^ n\<bar> \<le> \<bar>real_of_int M\<bar>"
    by (simp add: divide_le_eq mult_le_cancel_left1)
  moreover have "(2::real) ^ 53 < 2 powr 1024" by simp
  ultimately have "\<bar>real_of_int M / 2 ^ n\<bar> < (2::real) powr 1024" by linarith
  then have ov: "\<bar>of_int M * 2 powr (of_int (- int n))\<bar> < (2::real) powr 1024"
    unfolding p by simp
  have q: "- 1074 \<le> - int n" using assms(3) by simp
  from round64_exact [OF assms(1,2) q ov] show ?thesis unfolding p by simp
qed

lemma round64_quarters:
  "round64 (1 / 4) = Finite (1 / 4)" "round64 (- (1 / 4)) = Finite (- (1 / 4))"
  using round64_dyadic [of 1 2] round64_dyadic [of "- 1" 2]
  by simp_all

section \<open>Lemmas on the numpy helpers\<close>

lemma np_diff_bool_simps:
  "np_diff_bool [] = []" "np_diff_bool [a] = []"
  "np_diff_bool (a # b # bs) = (b \<noteq> a) # np_diff_bool (b # bs)"
  by (simp_all add: np_diff_bool_def)

lemma np_where_Nil: "np_where [] = []"
  by (simp add: np_where_def)

lemma np_where_Cons: "np_where (c # cs) = (if c then [0] else []) @ map Suc (np_where cs)"
proof -
  have "[0..<length (c # cs)] = 0 # map Suc [0..<length cs]"
    by (simp add: upt_conv_Cons map_Suc_upt del: upt_Suc)
  then show ?thesis
    by (simp add: np_where_def filter_map comp_def del: upt_Suc)
qed

lemma zc_idx_Nil: "zc_idx [] = []"
  by (simp add: zc_idx_def np_signbit_def np_diff_bool_simps np_where_Nil)

lemma zc_idx_single: "zc_idx [x] = []"
  by (simp add: zc_idx_def np_signbit_def np_diff_bool_simps np_where_Nil)

lemma zc_idx_Cons2:
  "zc_idx (x # y # ys) =
     (if signbit x \<noteq> signbit y then [0] else []) @ map Suc (zc_idx (y # ys))"
  by (auto simp add: zc_idx_def np_signbit_def np_diff_bool_simps np_where_Cons)

lemma zc_idx_bound: "i \<in> set (zc_idx trace) \<Longrightarrow> Suc i < length trace"
proof (induction trace arbitrary: i rule: induct_list012)
  case 1 then show ?case by (simp add: zc_idx_Nil)
next
  case (2 x) then show ?case by (simp add: zc_idx_single)
next
  case (3 x y zs)
  then show ?case by (auto simp add: zc_idx_Cons2 split: if_splits)
qed

lemma take_idx_ok:
  "\<forall>i\<in>set is. i < length xs \<Longrightarrow> take_idx xs is = Inr (map (nth xs) is)"
  by (induction "is") simp_all

lemma take_idx_Inr:
  "take_idx xs is = Inr ys \<Longrightarrow> (\<forall>i\<in>set is. i < length xs) \<and> ys = map (nth xs) is"
  by (induction "is" arbitrary: ys) (auto split: if_splits sum.splits)

lemma length_np_split: "length (np_split xs idxs) = Suc (length idxs)"
  by (simp add: np_split_def)

lemma np_split_Nil_idx: "np_split xs [] = [xs]"
  by (simp add: np_split_def py_slice_def)

lemma slice_shift:
  "map (\<lambda>(st, en). py_slice st en (x # xs)) (zip (map Suc as) (map Suc bs)) =
   map (\<lambda>(st, en). py_slice st en xs) (zip as bs)"
  by (simp add: zip_map_map py_slice_def split_def)

lemma np_split_Cons_Suc:
  "np_split (x # xs) (map Suc js) =
     (x # hd (np_split xs js)) # tl (np_split xs js)"
proof (cases js)
  case Nil
  then show ?thesis by (simp add: np_split_def py_slice_def)
next
  case (Cons j js')
  have "np_split (x # xs) (map Suc js) =
        py_slice 0 (Suc j) (x # xs) #
        map (\<lambda>(st, en). py_slice st en (x # xs)) (zip (map Suc (j # js')) (map Suc (js' @ [length xs])))"
    using Cons by (simp add: np_split_def)
  also have "\<dots> = (x # py_slice 0 j xs) #
        map (\<lambda>(st, en). py_slice st en xs) (zip (j # js') (js' @ [length xs]))"
    by (simp only: slice_shift) (simp add: py_slice_def)
  also have "\<dots> = (x # hd (np_split xs js)) # tl (np_split xs js)"
    using Cons by (simp add: np_split_def)
  finally show ?thesis .
qed

lemma np_split_Cons_one:
  "np_split (x # xs) (Suc 0 # map Suc js) = [x] # np_split xs js"
proof -
  have "np_split (x # xs) (Suc 0 # map Suc js) =
        py_slice 0 (Suc 0) (x # xs) #
        map (\<lambda>(st, en). py_slice st en (x # xs)) (zip (map Suc (0 # js)) (map Suc (js @ [length xs])))"
    by (simp add: np_split_def)
  also have "\<dots> = [x] # map (\<lambda>(st, en). py_slice st en xs) (zip (0 # js) (js @ [length xs]))"
    by (simp only: slice_shift) (simp add: py_slice_def)
  finally show ?thesis by (simp add: np_split_def)
qed

lemma insert_loop_closed:
  assumes "\<forall>i\<in>set is. i < length tz \<and> Suc i < length tsp \<and> Suc i < length rsp"
  shows "insert_loop tz tsp rsp is (a, b) =
           Inr (a @ concat (map (\<lambda>i. tz ! i # tsp ! Suc i) is),
                b @ concat (map (\<lambda>i. Finite 0 # rsp ! Suc i) is))"
  using assms by (induction "is" arbitrary: a b) simp_all

lemma concat_nth_zip:
  assumes "length segs = Suc (length vs)"
  shows "concat (map (\<lambda>i. vs ! i # segs ! Suc i) [0..<length vs]) =
         concat (map (\<lambda>(v, s). v # s) (zip vs (tl segs)))"
proof -
  have "map (\<lambda>i. vs ! i # segs ! Suc i) [0..<length vs] = map (\<lambda>(v, s). v # s) (zip vs (tl segs))"
    using assms by (intro nth_equalityI) (auto simp: nth_tl)
  then show ?thesis by simp
qed


lemma tt_zero_of_map:
  "tt_zero_of (map f1 is) (map f2 is) (map f3 is) (map f4 is) =
     map (\<lambda>i. crossing (f1 i) (f2 i) (f3 i) (f4 i)) is"
  by (induction "is") simp_all

lemma insert_zeros_closed:
  assumes "\<forall>i\<in>set (zc_idx trace). Suc i < length tt"
  shows "insert_zeros trace (Some tt) =
     Inr (hd (np_split trace (map Suc (zc_idx trace))) @
            concat (map (\<lambda>s. Finite 0 # s) (tl (np_split trace (map Suc (zc_idx trace))))),
          hd (np_split tt (map Suc (zc_idx trace))) @
            concat (map (\<lambda>(v, s). v # s)
              (zip (tz_of trace tt) (tl (np_split tt (map Suc (zc_idx trace)))))))"
proof -
  let ?zc = "zc_idx trace"
  let ?tsp = "np_split tt (map Suc ?zc)"
  let ?rsp = "np_split trace (map Suc ?zc)"
  let ?tz = "tz_of trace tt"
  have b1: "\<forall>i\<in>set ?zc. i < length tt" using assms by auto
  have b2: "\<forall>i\<in>set (map Suc ?zc). i < length tt" using assms by auto
  have b3: "\<forall>i\<in>set ?zc. i < length trace" using zc_idx_bound by fastforce
  have b4: "\<forall>i\<in>set (map Suc ?zc). i < length trace" using zc_idx_bound by auto
  have t1: "take_idx tt ?zc = Inr (map (nth tt) ?zc)" by (rule take_idx_ok [OF b1])
  have t2: "take_idx tt (map Suc ?zc) = Inr (map (\<lambda>i. tt ! Suc i) ?zc)"
    using take_idx_ok [OF b2] by (simp add: comp_def)
  have t3: "take_idx trace ?zc = Inr (map (nth trace) ?zc)" by (rule take_idx_ok [OF b3])
  have t4: "take_idx trace (map Suc ?zc) = Inr (map (\<lambda>i. trace ! Suc i) ?zc)"
    using take_idx_ok [OF b4] by (simp add: comp_def)
  have tz: "tt_zero_of (map (nth tt) ?zc) (map (\<lambda>i. tt ! Suc i) ?zc)
              (map (nth trace) ?zc) (map (\<lambda>i. trace ! Suc i) ?zc) = ?tz"
    by (simp add: tt_zero_of_map tz_of_def)
  have ltz: "length ?tz = length ?zc" by (simp add: tz_of_def)
  obtain t0 ts where tsp: "?tsp = t0 # ts"
    by (cases ?tsp) (use length_np_split [of tt "map Suc ?zc"] in auto)
  obtain r0 rs where rsp: "?rsp = r0 # rs"
    by (cases ?rsp) (use length_np_split [of trace "map Suc ?zc"] in auto)
  have lts: "length ?tsp = Suc (length ?tz)" by (simp add: length_np_split ltz)
  have lrs: "length ?rsp = Suc (length ?tz)" by (simp add: length_np_split ltz)
  have loop: "insert_loop ?tz ?tsp ?rsp [0..<length ?tz] (t0, r0) =
           Inr (t0 @ concat (map (\<lambda>i. ?tz ! i # ?tsp ! Suc i) [0..<length ?tz]),
                r0 @ concat (map (\<lambda>i. Finite 0 # ?rsp ! Suc i) [0..<length ?tz]))"
    by (rule insert_loop_closed) (simp add: lts lrs)
  have c1: "concat (map (\<lambda>i. ?tz ! i # ?tsp ! Suc i) [0..<length ?tz]) =
            concat (map (\<lambda>(v, s). v # s) (zip ?tz (tl ?tsp)))"
    by (rule concat_nth_zip [OF lts])
  have "map (\<lambda>i. Finite 0 # ?rsp ! Suc i) [0..<length ?tz] = map (\<lambda>s. Finite 0 # s) (tl ?rsp)"
    using lrs by (intro nth_equalityI) (auto simp: nth_tl)
  then have c2: "concat (map (\<lambda>i. Finite 0 # ?rsp ! Suc i) [0..<length ?tz]) =
            concat (map (\<lambda>s. Finite 0 # s) (tl ?rsp))" by simp
  show ?thesis
    unfolding insert_zeros_def Let_def option.case t1 t2 t3 t4 sum.case tz
    using loop unfolding c1 c2 by (simp add: tsp rsp)
qed


lemma tz_of_Cons2:
  "tz_of (x # y # ys) (t1 # t2 # ts) =
     (if signbit x \<noteq> signbit y then [crossing t1 t2 x y] else []) @ tz_of (y # ys) (t2 # ts)"
  by (simp add: tz_of_def zc_idx_Cons2 comp_def)

lemma np_split_nonempty: "np_split xs idxs \<noteq> []"
  using length_np_split [of xs idxs] by auto

lemma cuts_Cons2:
  "map Suc (zc_idx (x # y # ys)) =
     (if signbit x \<noteq> signbit y then [Suc 0] else []) @ map Suc (map Suc (zc_idx (y # ys)))"
  by (simp add: zc_idx_Cons2 del: map_map)

lemma np_split_cuts_Cons2:
  "np_split (u # us) (map Suc (zc_idx (x # y # ys))) =
     (let S = np_split us (map Suc (zc_idx (y # ys)))
      in if signbit x \<noteq> signbit y then [u] # S else (u # hd S) # tl S)"
proof (cases "signbit x \<noteq> signbit y")
  case True
  then have "map Suc (zc_idx (x # y # ys)) = Suc 0 # map Suc (map Suc (zc_idx (y # ys)))"
    by (simp add: cuts_Cons2 del: map_map)
  then show ?thesis using True by (simp add: np_split_Cons_one Let_def del: map_map)
next
  case False
  then have "map Suc (zc_idx (x # y # ys)) = map Suc (map Suc (zc_idx (y # ys)))"
    by (simp add: cuts_Cons2 del: map_map)
  then show ?thesis using False by (simp add: np_split_Cons_Suc Let_def del: map_map)
qed

lemma trace_part_splice:
  "length tt = length trace \<Longrightarrow>
   hd (np_split trace (map Suc (zc_idx trace))) @
     concat (map (\<lambda>s. Finite 0 # s) (tl (np_split trace (map Suc (zc_idx trace)))))
   = map fst (splice (zip trace tt))"
proof (induction trace arbitrary: tt rule: induct_list012)
  case 1
  then show ?case by (simp add: zc_idx_Nil np_split_Nil_idx)
next
  case (2 x)
  then show ?case by (cases tt) (simp_all add: zc_idx_single np_split_Nil_idx)
next
  case (3 x y ys)
  then obtain t1 t2 ts where tt: "tt = t1 # t2 # ts" and len: "length (t2 # ts) = length (y # ys)"
    by (cases tt; cases "tl tt") auto
  let ?S = "np_split (y # ys) (map Suc (zc_idx (y # ys)))"
  obtain s0 ss where S: "?S = s0 # ss" using np_split_nonempty [of "y # ys"] by (cases ?S) auto
  have IH: "hd ?S @ concat (map (\<lambda>s. Finite 0 # s) (tl ?S)) = map fst (splice (zip (y # ys) (t2 # ts)))"
    using "3.IH"(2) [OF len] .
  show ?case
    unfolding np_split_cuts_Cons2 Let_def using IH
    by (simp add: tt S)
qed

lemma axis_part_splice:
  "length tt = length trace \<Longrightarrow>
   hd (np_split tt (map Suc (zc_idx trace))) @
     concat (map (\<lambda>(v, s). v # s)
       (zip (tz_of trace tt) (tl (np_split tt (map Suc (zc_idx trace))))))
   = map snd (splice (zip trace tt))"
proof (induction trace arbitrary: tt rule: induct_list012)
  case 1
  then show ?case by (simp add: zc_idx_Nil np_split_Nil_idx tz_of_def)
next
  case (2 x)
  then show ?case by (cases tt) (simp_all add: zc_idx_single np_split_Nil_idx tz_of_def)
next
  case (3 x y ys)
  then obtain t1 t2 ts where tt: "tt = t1 # t2 # ts" and len: "length (t2 # ts) = length (y # ys)"
    by (cases tt; cases "tl tt") auto
  let ?S = "np_split (t2 # ts) (map Suc (zc_idx (y # ys)))"
  obtain s0 ss where S: "?S = s0 # ss" using np_split_nonempty [of "t2 # ts"] by (cases ?S) auto
  have IH: "hd ?S @ concat (map (\<lambda>(v, s). v # s) (zip (tz_of (y # ys) (t2 # ts)) (tl ?S)))
      = map snd (splice (zip (y # ys) (t2 # ts)))"
    using "3.IH"(2) [OF len] .
  show ?case
    unfolding tt np_split_cuts_Cons2 Let_def tz_of_Cons2 using IH
    by (simp add: S)
qed

lemma insert_zeros_splice:
  assumes "length tt = length trace"
  shows "insert_zeros trace (Some tt) =
           Inr (map fst (splice (zip trace tt)), map snd (splice (zip trace tt)))"
proof -
  have "\<forall>i\<in>set (zc_idx trace). Suc i < length tt"
    using zc_idx_bound assms by auto
  from insert_zeros_closed [OF this] show ?thesis
    by (simp only: trace_part_splice [OF assms] axis_part_splice [OF assms])
qed

lemma insert_zeros_None:
  "insert_zeros trace None = insert_zeros trace (Some (arange (length trace)))"
  by (simp add: insert_zeros_def)

lemma take_idx_cases:
  "take_idx xs is = (if \<forall>i\<in>set is. i < length xs then Inr (map (nth xs) is) else Inl IndexError)"
  by (induction "is") auto

lemma map_fst_splice: "map fst (splice ps) = ins0 (map fst ps)"
  by (induction ps rule: splice.induct) auto

lemma trace_part_ins0:
  "hd (np_split trace (map Suc (zc_idx trace))) @
     concat (map (\<lambda>s. Finite 0 # s) (tl (np_split trace (map Suc (zc_idx trace)))))
   = ins0 trace"
  using trace_part_splice [of trace trace] by (simp add: map_fst_splice)

lemma insert_zeros_Some:
  "insert_zeros trace (Some tt) =
     (if \<forall>i\<in>set (zc_idx trace). Suc i < length tt
      then Inr (ins0 trace,
                hd (np_split tt (map Suc (zc_idx trace))) @
                concat (map (\<lambda>(v, s). v # s)
                  (zip (tz_of trace tt) (tl (np_split tt (map Suc (zc_idx trace)))))))
      else Inl IndexError)"
proof (cases "\<forall>i\<in>set (zc_idx trace). Suc i < length tt")
  case True
  then show ?thesis
    using insert_zeros_closed [OF True] True by (simp add: trace_part_ins0)
next
  case False
  then have "\<not> (\<forall>i\<in>set (map Suc (zc_idx trace)). i < length tt)" by auto
  then have t2: "take_idx tt (map Suc (zc_idx trace)) = Inl IndexError"
    by (simp only: take_idx_cases if_False)
  have "insert_zeros trace (Some tt) = Inl IndexError"
  proof (cases "take_idx tt (zc_idx trace)")
    case (Inl e)
    then have "e = IndexError" by (simp add: take_idx_cases split: if_splits)
    with Inl show ?thesis
      by (simp only: insert_zeros_def Let_def option.case sum.case)
  next
    case (Inr v)
    then show ?thesis
      by (simp only: insert_zeros_def Let_def option.case sum.case t2)
  qed
  then show ?thesis using False by simp
qed

lemma sign_changes_Cons2:
  "sign_changes (x # y # ys) =
     (if signbit x \<noteq> signbit y then {0} else {}) \<union> Suc ` sign_changes (y # ys)"
proof -
  have "\<And>i. i \<in> sign_changes (x # y # ys) \<longleftrightarrow>
          (i = 0 \<and> signbit x \<noteq> signbit y) \<or> (\<exists>j. i = Suc j \<and> j \<in> sign_changes (y # ys))"
    subgoal for i by (cases i) (auto simp add: sign_changes_def)
    done
  then show ?thesis by (auto simp add: image_iff)
qed

lemma set_zc_idx: "set (zc_idx trace) = sign_changes trace"
proof (induction trace rule: induct_list012)
  case 1 show ?case by (simp add: zc_idx_Nil sign_changes_def)
next
  case (2 x) show ?case by (simp add: zc_idx_single sign_changes_def)
next
  case (3 x y ys)
  then show ?case by (simp add: zc_idx_Cons2 sign_changes_Cons2)
qed

lemma distinct_zc_idx: "distinct (zc_idx trace)"
proof (induction trace rule: induct_list012)
  case 1 show ?case by (simp add: zc_idx_Nil)
next
  case (2 x) show ?case by (simp add: zc_idx_single)
next
  case (3 x y ys)
  then show ?case by (auto simp add: zc_idx_Cons2 distinct_map)
qed

lemma length_zc_idx: "length (zc_idx trace) = card (sign_changes trace)"
  using distinct_card [OF distinct_zc_idx, of trace] by (simp add: set_zc_idx)

lemma length_ins0: "length (ins0 trace) = length trace + length (zc_idx trace)"
  by (induction trace rule: ins0.induct) (simp_all add: zc_idx_Cons2 zc_idx_Nil zc_idx_single)

lemma arange_length: "length (arange n) = n"
  by (simp add: arange_def)

lemma insert_zeros_returns:
  assumes "case tt of None \<Rightarrow> True | Some t \<Rightarrow> length t = length trace"
  shows "\<exists>trace_zi tt_zi. insert_zeros trace tt = Inr (trace_zi, tt_zi)"
proof -
  define t where "t = (case tt of None \<Rightarrow> arange (length trace) | Some t \<Rightarrow> t)"
  have eq: "insert_zeros trace tt = insert_zeros trace (Some t)"
    by (cases tt) (simp_all add: t_def insert_zeros_None)
  have "length t = length trace"
    using assms by (cases tt) (simp_all add: t_def arange_length)
  then have "\<forall>i\<in>set (zc_idx trace). Suc i < length t"
    using zc_idx_bound by auto
  then show ?thesis unfolding eq insert_zeros_Some by simp
qed

lemma insert_zeros_trace_part:
  assumes "insert_zeros trace tt = Inr (trace_zi, tt_zi)"
  shows "trace_zi = ins0 trace"
proof -
  define t where "t = (case tt of None \<Rightarrow> arange (length trace) | Some t \<Rightarrow> t)"
  have eq: "insert_zeros trace tt = insert_zeros trace (Some t)"
    by (cases tt) (simp_all add: t_def insert_zeros_None)
  show ?thesis
    using assms unfolding eq insert_zeros_Some by (simp split: if_splits)
qed

lemmas insert_zeros_eval =
  insert_zeros_def zc_idx_def np_where_def np_diff_bool_def np_signbit_def np_split_def
  py_slice_def crossing_def fsub_def fdiv_def fadd_def arange_def mk_zero_def mk_inf_def Let_def
  round64_vals round64_halves round64_quarters

text \<open>
  Claim C1. For every input trace, the augmented trace returned by \<open>insert_zeros\<close>
  has the length of the trace plus the number of its sign changes. The call returns
  whenever the axis is left out or has the length of the trace, and whatever it returns
  has that length.
\<close>

theorem insert_zeros_length:
  "((case tt of None \<Rightarrow> True | Some t \<Rightarrow> length t = length trace) \<longrightarrow>
      (\<exists>trace_zi tt_zi. insert_zeros trace tt = Inr (trace_zi, tt_zi))) \<and>
   (\<forall>trace_zi tt_zi. insert_zeros trace tt = Inr (trace_zi, tt_zi) \<longrightarrow>
      length trace_zi = length trace + card (sign_changes trace))"
proof (intro conjI impI allI)
  assume "case tt of None \<Rightarrow> True | Some t \<Rightarrow> length t = length trace"
  then show "\<exists>trace_zi tt_zi. insert_zeros trace tt = Inr (trace_zi, tt_zi)"
    by (rule insert_zeros_returns)
next
  fix trace_zi tt_zi
  assume "insert_zeros trace tt = Inr (trace_zi, tt_zi)"
  then have "trace_zi = ins0 trace" by (rule insert_zeros_trace_part)
  then show "length trace_zi = length trace + card (sign_changes trace)"
    by (simp add: length_ins0 length_zc_idx)
qed

theorem insert_zeros_length_witness:
  "insert_zeros [Finite 1, Finite (- 1), Finite 1] None =
     Inr ([Finite 1, Finite 0, Finite (- 1), Finite 0, Finite 1],
          [Finite 0, Finite (1 / 2), Finite 1, Finite (3 / 2), Finite 2]) \<and>
   card (sign_changes [Finite 1, Finite (- 1), Finite 1]) = 2"
proof -
  have e: "insert_zeros [Finite 1, Finite (- 1), Finite 1] None =
     Inr ([Finite 1, Finite 0, Finite (- 1), Finite 0, Finite 1],
          [Finite 0, Finite (1 / 2), Finite 1, Finite (3 / 2), Finite 2])"
    by (simp add: insert_zeros_eval)
  from insert_zeros_length [where tt = None and trace = "[Finite 1, Finite (- 1), Finite 1]"] e
  show ?thesis by simp
qed

section \<open>Properties of the zero-crossing inserter\<close>

lemma inserted_positions_Nil: "inserted_positions [] = {}"
  by (simp add: inserted_positions_def zc_idx_Nil)

lemma inserted_positions_single: "inserted_positions [x] = {}"
  by (simp add: inserted_positions_def zc_idx_single)

lemma inserted_positions_Cons2:
  "inserted_positions (x # y # ys) =
     (if signbit x \<noteq> signbit y
      then insert (Suc 0) ((\<lambda>p. Suc (Suc p)) ` inserted_positions (y # ys))
      else Suc ` inserted_positions (y # ys))"
proof (cases "signbit x \<noteq> signbit y")
  case True
  let ?zc = "zc_idx (y # ys)"
  have zc: "zc_idx (x # y # ys) = 0 # map Suc ?zc" using True by (simp add: zc_idx_Cons2)
  have "(\<lambda>k. (0 # map Suc ?zc) ! k + 1 + k) ` {..<Suc (length ?zc)} =
        insert (Suc 0) ((\<lambda>k. Suc (Suc (?zc ! k + 1 + k))) ` {..<length ?zc})"
    by (auto simp add: lessThan_Suc_eq_insert_0 image_image)
  then show ?thesis using True
    by (simp add: inserted_positions_def zc image_image)
next
  case False
  let ?zc = "zc_idx (y # ys)"
  have zc: "zc_idx (x # y # ys) = map Suc ?zc" using False by (simp add: zc_idx_Cons2)
  have "(\<lambda>k. (map Suc ?zc) ! k + 1 + k) ` {..<length ?zc} =
        (\<lambda>k. Suc (?zc ! k + 1 + k)) ` {..<length ?zc}"
    by (auto simp add: image_iff)
  then show ?thesis using False
    by (simp add: inserted_positions_def zc image_image)
qed

lemma nths_ins0: "nths (ins0 trace) (- inserted_positions trace) = trace"
proof (induction trace rule: ins0.induct)
  case (3 x y r)
  show ?case
  proof (cases "signbit x \<noteq> signbit y")
    case True
    have "{j. Suc (Suc j) \<in> - insert (Suc 0) ((\<lambda>p. Suc (Suc p)) ` inserted_positions (y # r))}
          = - inserted_positions (y # r)" by auto
    moreover have "0 \<notin> (\<lambda>p. Suc (Suc p)) ` inserted_positions (y # r)" by auto
    ultimately show ?thesis using True 3
      by (simp add: inserted_positions_Cons2 nths_Cons)
  next
    case False
    have "{j. Suc j \<in> - Suc ` inserted_positions (y # r)} = - inserted_positions (y # r)" by auto
    moreover have "0 \<notin> Suc ` inserted_positions (y # r)" by auto
    ultimately show ?thesis using False 3
      by (simp add: inserted_positions_Cons2 nths_Cons)
  qed
next
  case 1
  show ?case by (simp add: inserted_positions_Nil)
next
  case (2 v)
  show ?case by (simp add: inserted_positions_single nths_Cons)
qed

lemma ins0_inserted_zero:
  "p \<in> inserted_positions trace \<Longrightarrow> p < length (ins0 trace) \<and> ins0 trace ! p = Finite 0"
proof (induction trace arbitrary: p rule: ins0.induct)
  case (3 x y r)
  then show ?case
    by (cases "signbit x \<noteq> signbit y") (auto simp add: inserted_positions_Cons2)
next
  case 1
  then show ?case by (simp add: inserted_positions_Nil)
next
  case (2 v)
  then show ?case by (simp add: inserted_positions_single)
qed

text \<open>
  Claim C2. The output of \<open>insert_zeros\<close> holds every sample of the input unchanged and
  in its order, and every point inserted between them has amplitude exactly \<open>0.0\<close>:
  deleting the positions of the inserted points from the output gives back the trace.
  The call returns whenever the axis is left out or has the length of the trace.
\<close>

theorem insert_zeros_keeps_samples:
  "((case tt of None \<Rightarrow> True | Some t \<Rightarrow> length t = length trace) \<longrightarrow>
      (\<exists>trace_zi tt_zi. insert_zeros trace tt = Inr (trace_zi, tt_zi))) \<and>
   (\<forall>trace_zi tt_zi. insert_zeros trace tt = Inr (trace_zi, tt_zi) \<longrightarrow>
      nths trace_zi (- inserted_positions trace) = trace \<and>
      (\<forall>p\<in>inserted_positions trace. p < length trace_zi \<and> trace_zi ! p = Finite 0))"
proof (intro conjI impI allI)
  assume "case tt of None \<Rightarrow> True | Some t \<Rightarrow> length t = length trace"
  then show "\<exists>trace_zi tt_zi. insert_zeros trace tt = Inr (trace_zi, tt_zi)"
    by (rule insert_zeros_returns)
next
  fix trace_zi tt_zi
  assume "insert_zeros trace tt = Inr (trace_zi, tt_zi)"
  then have e: "trace_zi = ins0 trace" by (rule insert_zeros_trace_part)
  show "nths trace_zi (- inserted_positions trace) = trace"
    unfolding e by (rule nths_ins0)
  show "\<forall>p\<in>inserted_positions trace. p < length trace_zi \<and> trace_zi ! p = Finite 0"
    unfolding e using ins0_inserted_zero by blast
qed

lemma insert_zeros_zc_Nil:
  "zc_idx trace = [] \<Longrightarrow> insert_zeros trace (Some tt) = Inr (trace, tt)"
  by (simp add: insert_zeros_def np_split_Nil_idx)

text \<open>
  Claim C3. When all samples of the trace have the same sign bit, \<open>insert_zeros\<close>
  returns the trace and the axis as they are (the generated axis \<open>arange\<close> when none
  is given) and raises nothing, whatever the length of the axis.
\<close>

theorem insert_zeros_no_crossing:
  assumes "\<forall>x\<in>set trace. \<forall>y\<in>set trace. signbit x = signbit y"
  shows "insert_zeros trace (Some tt) = Inr (trace, tt) \<and>
         insert_zeros trace None = Inr (trace, arange (length trace))"
proof -
  have "sign_changes trace = {}"
    using assms by (auto simp add: sign_changes_def)
  then have "zc_idx trace = []"
    using set_zc_idx [of trace] by simp
  then show ?thesis
    by (simp add: insert_zeros_None insert_zeros_zc_Nil)
qed

lemma splice_Cons_hd: "\<exists>r. splice (p # ps) = p # r"
  by (cases p; cases ps) auto

lemma sign_changes_tail:
  "i \<in> sign_changes (y # ys) \<Longrightarrow> Suc i \<in> sign_changes (x # y # ys)"
  by (simp add: sign_changes_Cons2)

lemma sign_changes_head:
  "signbit x \<noteq> signbit y \<Longrightarrow> 0 \<in> sign_changes (x # y # ys)"
  by (simp add: sign_changes_Cons2)

lemma splice_nth:
  assumes "length tt = length trace" and "k < length (zc_idx trace)"
  shows "zc_idx trace ! k + 1 + k < length (splice (zip trace tt)) \<and>
         splice (zip trace tt) ! (zc_idx trace ! k + 1 + k) =
           (Finite 0, crossing (tt ! (zc_idx trace ! k)) (tt ! Suc (zc_idx trace ! k))
                        (trace ! (zc_idx trace ! k)) (trace ! Suc (zc_idx trace ! k))) \<and>
         splice (zip trace tt) ! (zc_idx trace ! k + k) =
           (trace ! (zc_idx trace ! k), tt ! (zc_idx trace ! k))"
  using assms
proof (induction trace arbitrary: tt k rule: induct_list012)
  case 1
  then show ?case by (simp add: zc_idx_Nil)
next
  case (2 x)
  then show ?case by (simp add: zc_idx_single)
next
  case (3 x y ys)
  then obtain t1 t2 ts where tt: "tt = t1 # t2 # ts" and len: "length (t2 # ts) = length (y # ys)"
    by (cases tt; cases "tl tt") auto
  let ?zc = "zc_idx (y # ys)"
  show ?case
  proof (cases "signbit x \<noteq> signbit y")
    case True
    then have zc: "zc_idx (x # y # ys) = 0 # map Suc ?zc" by (simp add: zc_idx_Cons2)
    show ?thesis
    proof (cases k)
      case 0
      then show ?thesis using True by (simp add: zc tt)
    next
      case (Suc j)
      then have j: "j < length ?zc" using "3.prems"(2) by (simp add: zc)
      from "3.IH"(2) [OF len j] show ?thesis using True j
        by (simp add: zc tt Suc)
    qed
  next
    case False
    then have zc: "zc_idx (x # y # ys) = map Suc ?zc" by (simp add: zc_idx_Cons2)
    then have k: "k < length ?zc" using "3.prems"(2) by simp
    from "3.IH"(2) [OF len k] show ?thesis using False k
      by (simp add: zc tt)
  qed
qed

lemma count_list_distinct: "distinct xs \<Longrightarrow> x \<in> set xs \<Longrightarrow> count_list xs x = 1"
  by (induction xs) auto

lemma insert_zeros_axis_part:
  assumes "length tt = length trace"
  shows "insert_zeros trace (Some tt) =
           Inr (ins0 trace, map snd (splice (zip trace tt)))"
  using insert_zeros_splice [OF assms] by (simp add: map_fst_splice assms)

lemma example_up_down_up:
  "insert_zeros [Finite 2, Finite (- 2), Finite 2] (Some [Finite 0, Finite 1, Finite 2]) =
     Inr ([Finite 2, Finite 0, Finite (- 2), Finite 0, Finite 2],
          [Finite 0, Finite (1 / 2), Finite 1, Finite (3 / 2), Finite 2])"
  by (simp add: insert_zeros_eval)

lemma example_positions:
  "inserted_positions [Finite 2, Finite (- 2), Finite 2] = {1, 3}"
proof -
  have "zc_idx [Finite 2, Finite (- 2), Finite 2] = [0, 1]"
    by (simp add: insert_zeros_eval)
  then show ?thesis
    by (auto simp add: inserted_positions_def lessThan_Suc numeral_2_eq_2)
qed

theorem insert_zeros_keeps_samples_witness:
  "insert_zeros [Finite 2, Finite (- 2), Finite 2] (Some [Finite 0, Finite 1, Finite 2]) =
     Inr ([Finite 2, Finite 0, Finite (- 2), Finite 0, Finite 2],
          [Finite 0, Finite (1 / 2), Finite 1, Finite (3 / 2), Finite 2]) \<and>
   inserted_positions [Finite 2, Finite (- 2), Finite 2] = {1, 3} \<and>
   nths [Finite 2, Finite 0, Finite (- 2), Finite 0, Finite 2] (- {1, 3}) =
     [Finite 2, Finite (- 2), Finite 2]"
  using insert_zeros_keeps_samples [where trace = "[Finite 2, Finite (- 2), Finite 2]"
      and tt = "Some [Finite 0, Finite 1, Finite 2]"]
    example_up_down_up example_positions
  by simp

theorem insert_zeros_no_crossing_witness:
  "insert_zeros [Finite 1, Finite 0, Finite 2] (Some [Finite 0, Finite 1, Finite 2]) =
     Inr ([Finite 1, Finite 0, Finite 2], [Finite 0, Finite 1, Finite 2]) \<and>
   insert_zeros [Finite 1, Finite 0, Finite 2] None =
     Inr ([Finite 1, Finite 0, Finite 2], arange 3)"
  using insert_zeros_no_crossing [where trace = "[Finite 1, Finite 0, Finite 2]"
      and tt = "[Finite 0, Finite 1, Finite 2]"]
  by (simp add: numeral_3_eq_3)

section \<open>Properties of the input normalizer\<close>

lemma upt_0_2: "[0..<2] = [0, Suc 0]"
  by (simp add: numeral_2_eq_2)

lemma upt_0_3: "[0..<3] = [0, Suc 0, 2]"
  by (simp add: numeral_3_eq_3)

lemmas float_eval = fsub_def fadd_def fmul_def fdiv_def mk_zero_def mk_inf_def
  round64_vals round64_halves round64_quarters

lemma col_ex1:
  "column 2 2 [Finite 1, Finite 2, Finite (- 1), Finite (- 2)] 0 = [Finite 1, Finite (- 1)]"
  "column 2 2 [Finite 1, Finite 2, Finite (- 1), Finite (- 2)] (Suc 0) = [Finite 2, Finite (- 2)]"
  by (simp_all add: column_def upt_0_2 numeral_2_eq_2 numeral_3_eq_3)

lemma std_col_ex1:
  "np_std [Finite 1, Finite (- 1)] = Finite 1"
  "np_std [Finite 2, Finite (- 2)] = Finite 2"
  by (simp_all add: np_std_def np_sum_def float_eval Let_def)

lemma std_ex1: "np_std_axis0 2 2 [Finite 1, Finite 2, Finite (- 1), Finite (- 2)] = [Finite 1, Finite 2]"
  by (simp add: np_std_axis0_def upt_0_2 col_ex1 std_col_ex1)

lemma min_diff_ex: "np_min (np_diff [Finite 0, Finite 1]) = Inr (Finite 1)"
  by (simp add: np_min_def np_diff_def float_eval)

lemma max_ex1: "np_max [Finite 1, Finite 2] = Inr (Finite 2)"
  by (simp add: np_max_def np_maximum_def)

lemma normalizer_example: "wiggle_input_check (NdArray [2, 2] [Finite 1, Finite 2, Finite (- 1), Finite (- 2)])
    (NdArray [2] [Finite 0, Finite 1]) (NdArray [2] [Finite 0, Finite 1]) (PyFloat (Finite 1)) (PyBool False)
  = Inr (NdArray [2, 2] [Finite (1/2), Finite 1, Finite (- 1/2), Finite (- 1)],
         NdArray [2] [Finite 0, Finite 1], NdArray [2] [Finite 0, Finite 1], Finite 1)"
  by (simp add: wiggle_input_check_def rescale_def check_tt_def check_xx_def std_ex1 min_diff_ex max_ex1 float_eval)

lemma check_tt_cases:
  "check_tt [r, c] tt = Inr tt' \<Longrightarrow>
     (tt = PyNone \<and> tt' = NdArray [r] (arange r)) \<or> (\<exists>tflat. tt = NdArray [r] tflat \<and> tt' = tt)"
proof (cases tt)
  case (NdArray tshape tflat)
  assume a: "check_tt [r, c] tt = Inr tt'"
  then have "length tshape = 1" "tshape ! 0 = r" "tt' = tt"
    unfolding check_tt_def NdArray by (simp_all split: if_splits)
  then show ?thesis using NdArray by (cases tshape) auto
qed (simp_all add: check_tt_def)


lemma check_tt_rows_error:
  "check_tt [r, c] tt = Inl (ValueError ''tt must have same as data's rows'') \<longleftrightarrow>
     (\<exists>m tflat. tt = NdArray [m] tflat \<and> m \<noteq> r)"
proof (cases tt)
  case (NdArray tshape tflat)
  show ?thesis
  proof (cases "length tshape = 1")
    case True
    then obtain m where m: "tshape = [m]" by (cases tshape) auto
    show ?thesis unfolding check_tt_def NdArray m by simp
  next
    case False
    then have "\<And>m. tshape \<noteq> [m]" by auto
    then show ?thesis unfolding check_tt_def NdArray using False by simp
  qed
qed (simp_all add: check_tt_def)

lemma rescale_error:
  "rescale dshape dflat xflat sf = Inl e \<Longrightarrow>
     e = ValueError ''zero-size array to reduction operation minimum which has no identity'' \<or>
     e = ValueError ''zero-size array to reduction operation maximum which has no identity'' \<or>
     sf = Inl e"
  unfolding rescale_def np_min_def np_max_def
  by (simp split: list.splits sum.splits)

lemma sf_value_error: "sf_value sf = Some (Inl e) \<Longrightarrow> e = OverflowError"
  by (cases sf) (simp_all split: if_splits)

lemma wiggle_input_check_2d:
  "wiggle_input_check (NdArray [r, c] dflat) tt xx sf (PyBool v) =
     (case check_tt [r, c] tt of
        Inl e \<Rightarrow> Inl e
      | Inr tt' \<Rightarrow>
          (case check_xx [r, c] (array_shape tt') xx of
             Inl e \<Rightarrow> Inl e
           | Inr xx' \<Rightarrow>
               (case sf_value sf of
                  None \<Rightarrow> Inl (TypeError ''Strech factor(sf) must be a number'')
                | Some sfv \<Rightarrow>
                    (case rescale [r, c] dflat (array_flat xx') sfv of
                       Inl e \<Rightarrow> Inl e
                     | Inr (data', ts) \<Rightarrow> Inr (data', tt', xx', ts)))))"
  by (simp add: wiggle_input_check_def)

text \<open>
  Claim C8. For a one-dimensional array \<^verbatim>\<open>xx\<close>, the length test of the check of
  \<^verbatim>\<open>xx\<close> compares the length of \<^verbatim>\<open>tt\<close> with the number of rows of \<^verbatim>\<open>data\<close>, and
  the length of \<^verbatim>\<open>xx\<close> plays no part in it: the call ends with the length-mismatch
  error exactly when \<^verbatim>\<open>tt\<close> is a one-dimensional array whose length is not the number
  of rows.
\<close>

theorem xx_length_check_reads_tt:
  assumes "data = NdArray [r, c] dflat" and "verbose = PyBool v" and "xx = NdArray [n] xflat"
  shows "check_xx [r, c] tshape xx =
           (if tshape ! 0 \<noteq> r then Inl (ValueError ''tt must have same as data's rows'')
            else Inr xx) \<and>
         (wiggle_input_check data tt xx sf verbose =
            Inl (ValueError ''tt must have same as data's rows'') \<longleftrightarrow>
          (\<exists>m tflat. tt = NdArray [m] tflat \<and> m \<noteq> r))"
proof
  show "check_xx [r, c] tshape xx =
           (if tshape ! 0 \<noteq> r then Inl (ValueError ''tt must have same as data's rows'')
            else Inr xx)"
    by (simp add: check_xx_def assms(3))
next
  let ?msg = "ValueError ''tt must have same as data's rows''"
  have w: "wiggle_input_check data tt xx sf verbose =
     (case check_tt [r, c] tt of
        Inl e \<Rightarrow> Inl e
      | Inr tt' \<Rightarrow>
          (case check_xx [r, c] (array_shape tt') xx of
             Inl e \<Rightarrow> Inl e
           | Inr xx' \<Rightarrow>
               (case sf_value sf of
                  None \<Rightarrow> Inl (TypeError ''Strech factor(sf) must be a number'')
                | Some sfv \<Rightarrow>
                    (case rescale [r, c] dflat (array_flat xx') sfv of
                       Inl e \<Rightarrow> Inl e
                     | Inr (data', ts) \<Rightarrow> Inr (data', tt', xx', ts)))))"
    unfolding assms(1,2) by (rule wiggle_input_check_2d)
  show "wiggle_input_check data tt xx sf verbose = Inl ?msg \<longleftrightarrow>
          (\<exists>m tflat. tt = NdArray [m] tflat \<and> m \<noteq> r)"
  proof (cases "check_tt [r, c] tt")
    case (Inl e)
    then have "wiggle_input_check data tt xx sf verbose = Inl e"
      unfolding w by simp
    then show ?thesis using Inl check_tt_rows_error [of r c tt] by simp
  next
    case (Inr tt')
    then have sh: "array_shape tt' = [r]"
      using check_tt_cases [OF Inr] by auto
    have no: "\<not> (\<exists>m tflat. tt = NdArray [m] tflat \<and> m \<noteq> r)"
      using check_tt_rows_error [of r c tt] Inr by simp
    have cx: "check_xx [r, c] (array_shape tt') xx = Inr xx"
      by (simp add: check_xx_def assms(3) sh)
    have "wiggle_input_check data tt xx sf verbose \<noteq> Inl ?msg"
    proof (cases "sf_value sf")
      case None
      then show ?thesis unfolding w Inr sum.case cx by simp
    next
      case (Some sfv)
      show ?thesis
      proof (cases "rescale [r, c] dflat (array_flat xx) sfv")
        case (Inl e)
        from rescale_error [OF this] sf_value_error [of sf e] Some have "e \<noteq> ?msg" by auto
        then show ?thesis unfolding w \<open>check_tt [r, c] tt = Inr tt'\<close> sum.case cx Some option.case Inl
          by simp
      next
        case res: (Inr p)
        then show ?thesis unfolding w Inr sum.case cx Some option.case res
          by (cases p) simp
      qed
    qed
    then show ?thesis using no by simp
  qed
qed

text \<open>
  Claim C4. For the trace \<^verbatim>\<open>[1, -1]\<close> on the axis \<^verbatim>\<open>[0, 1]\<close>, \<open>insert_zeros\<close> finds
  one crossing and returns the amplitudes \<^verbatim>\<open>[1, 0, -1]\<close> at the coordinates
  \<^verbatim>\<open>[0, 0.5, 1]\<close>. In the example scenario column 0 of \<^verbatim>\<open>[[1, 2], [-1, -2]]\<close> is that
  trace, and column 1 crosses at \<^verbatim>\<open>0.5\<close> as well.
\<close>

theorem insert_zeros_example_midpoint:
  "zc_idx [Finite 1, Finite (- 1)] = [0] \<and>
   insert_zeros [Finite 1, Finite (- 1)] (Some [Finite 0, Finite 1]) =
     Inr ([Finite 1, Finite 0, Finite (- 1)], [Finite 0, Finite (1 / 2), Finite 1]) \<and>
   column 2 2 [Finite 1, Finite 2, Finite (- 1), Finite (- 2)] 0 = [Finite 1, Finite (- 1)] \<and>
   insert_zeros (column 2 2 [Finite 1, Finite 2, Finite (- 1), Finite (- 2)] 0)
       (Some [Finite 0, Finite 1]) =
     Inr ([Finite 1, Finite 0, Finite (- 1)], [Finite 0, Finite (1 / 2), Finite 1]) \<and>
   insert_zeros (column 2 2 [Finite 1, Finite 2, Finite (- 1), Finite (- 2)] 1)
       (Some [Finite 0, Finite 1]) =
     Inr ([Finite 2, Finite 0, Finite (- 2)], [Finite 0, Finite (1 / 2), Finite 1])"
proof -
  have c0: "column 2 2 [Finite 1, Finite 2, Finite (- 1), Finite (- 2)] 0 = [Finite 1, Finite (- 1)]"
    by (rule col_ex1(1))
  have c1: "column 2 2 [Finite 1, Finite 2, Finite (- 1), Finite (- 2)] 1 = [Finite 2, Finite (- 2)]"
    using col_ex1(2) by simp
  have z: "zc_idx [Finite 1, Finite (- 1)] = [0]"
    by (simp add: insert_zeros_eval)
  have e0: "insert_zeros [Finite 1, Finite (- 1)] (Some [Finite 0, Finite 1]) =
     Inr ([Finite 1, Finite 0, Finite (- 1)], [Finite 0, Finite (1 / 2), Finite 1])"
    by (simp add: insert_zeros_eval)
  have e1: "insert_zeros [Finite 2, Finite (- 2)] (Some [Finite 0, Finite 1]) =
     Inr ([Finite 2, Finite 0, Finite (- 2)], [Finite 0, Finite (1 / 2), Finite 1])"
    by (simp add: insert_zeros_eval)
  show ?thesis unfolding c0 c1 using z e0 e1 by simp
qed

lemma check_tt_error:
  "check_tt dshape tt = Inl e \<Longrightarrow>
     e = TypeError ''tt must be a numpy array'' \<or> e = ValueError ''tt must be a 1D array'' \<or>
     e = ValueError ''tt must have same as data's rows''"
  unfolding check_tt_def by (cases tt) (simp_all split: if_splits)

lemma check_xx_error:
  "check_xx dshape tshape xx = Inl e \<Longrightarrow>
     e = TypeError ''tt must be a numpy array'' \<or> e = ValueError ''tt must be a 1D array'' \<or>
     e = ValueError ''tt must have same as data's rows''"
  unfolding check_xx_def by (cases xx) (simp_all split: if_splits)

lemma wiggle_input_check_error_2d:
  assumes "length dshape = 2"
    and "wiggle_input_check (NdArray dshape dflat) tt xx sf (PyBool v) = Inl e"
  shows "e \<noteq> ValueError ''data must be a 2D array''"
proof -
  let ?bad = "ValueError ''data must be a 2D array''"
  have d1: "TypeError ''tt must be a numpy array'' \<noteq> ?bad"
    "ValueError ''tt must be a 1D array'' \<noteq> ?bad"
    "ValueError ''tt must have same as data's rows'' \<noteq> ?bad"
    "TypeError ''Strech factor(sf) must be a number'' \<noteq> ?bad"
    "ValueError ''zero-size array to reduction operation minimum which has no identity'' \<noteq> ?bad"
    "ValueError ''zero-size array to reduction operation maximum which has no identity'' \<noteq> ?bad"
    "OverflowError \<noteq> ?bad"
    by simp_all
  show ?thesis
  proof (cases "check_tt dshape tt")
    case (Inl e')
    then have "e = e'" using assms by (simp add: wiggle_input_check_def)
    then show ?thesis using check_tt_error [OF Inl] d1 by auto
  next
    case tt': (Inr tt')
    show ?thesis
    proof (cases "check_xx dshape (array_shape tt') xx")
      case (Inl e')
      then have "e = e'" using assms tt' by (simp add: wiggle_input_check_def)
      then show ?thesis using check_xx_error [OF Inl] d1 by auto
    next
      case xx': (Inr xx')
      show ?thesis
      proof (cases "sf_value sf")
        case None
        then have "e = TypeError ''Strech factor(sf) must be a number''"
          using assms tt' xx' by (simp add: wiggle_input_check_def)
        then show ?thesis using d1 by simp
      next
        case (Some sfv)
        show ?thesis
        proof (cases "rescale dshape dflat (array_flat xx') sfv")
          case (Inl e')
          then have "e = e'" using assms tt' xx' Some by (simp add: wiggle_input_check_def)
          then show ?thesis using rescale_error [OF Inl] sf_value_error [of sf e'] Some d1 by auto
        next
          case (Inr p)
          then have False using assms tt' xx' Some
            by (cases p) (simp add: wiggle_input_check_def)
          then show ?thesis ..
        qed
      qed
    qed
  qed
qed

text \<open>
  Claim C9, as amended. A \<^verbatim>\<open>data\<close> array is rejected with the error
  \<^verbatim>\<open>data must be a 2D array\<close> exactly when it is not two-dimensional (a one-dimensional
  array, of length zero or not, is); the number of rows of a two-dimensional array is
  not looked at.
\<close>

theorem data_not_2d_rejected:
  assumes "verbose = PyBool v" and "data = NdArray dshape dflat"
  shows "wiggle_input_check data tt xx sf verbose = Inl (ValueError ''data must be a 2D array'')
           \<longleftrightarrow> length dshape \<noteq> 2"
proof
  assume "wiggle_input_check data tt xx sf verbose = Inl (ValueError ''data must be a 2D array'')"
  then show "length dshape \<noteq> 2"
    using wiggle_input_check_error_2d [of dshape dflat tt xx sf v] assms by auto
next
  assume "length dshape \<noteq> 2"
  then show "wiggle_input_check data tt xx sf verbose = Inl (ValueError ''data must be a 2D array'')"
    by (simp add: wiggle_input_check_def assms)
qed

lemma min_diff_ex3: "np_min (np_diff [Finite 0, Finite 1, Finite 2]) = Inr (Finite 1)"
  by (simp add: np_min_def np_diff_def np_minimum_def float_eval)

theorem xx_length_check_reads_tt_witness:
  "wiggle_input_check (NdArray [2, 2] [Finite 1, Finite 2, Finite (- 1), Finite (- 2)])
      (NdArray [3] [Finite 0, Finite 1, Finite 2]) (NdArray [2] [Finite 0, Finite 1])
      (PyFloat (Finite 1)) (PyBool False) =
     Inl (ValueError ''tt must have same as data's rows'') \<and>
   wiggle_input_check (NdArray [2, 2] [Finite 1, Finite 2, Finite (- 1), Finite (- 2)])
      (NdArray [2] [Finite 0, Finite 1]) (NdArray [3] [Finite 0, Finite 1, Finite 2])
      (PyFloat (Finite 1)) (PyBool False) =
     Inr (NdArray [2, 2] [Finite (1 / 2), Finite 1, Finite (- 1 / 2), Finite (- 1)],
          NdArray [2] [Finite 0, Finite 1], NdArray [3] [Finite 0, Finite 1, Finite 2],
          Finite 1)"
proof -
  let ?data = "NdArray [2, 2] [Finite 1, Finite 2, Finite (- 1), Finite (- 2)]"
  have "wiggle_input_check ?data (NdArray [3] [Finite 0, Finite 1, Finite 2])
      (NdArray [2] [Finite 0, Finite 1]) (PyFloat (Finite 1)) (PyBool False) =
     Inl (ValueError ''tt must have same as data's rows'')"
    using xx_length_check_reads_tt [OF refl refl refl, where r = 2 and c = 2
        and dflat = "[Finite 1, Finite 2, Finite (- 1), Finite (- 2)]" and tshape = "[3]"
        and n = 2 and xflat = "[Finite 0, Finite 1]"
        and tt = "NdArray [3] [Finite 0, Finite 1, Finite 2]" and sf = "PyFloat (Finite 1)"
        and v = False]
    by simp
  moreover have "wiggle_input_check ?data
      (NdArray [2] [Finite 0, Finite 1]) (NdArray [3] [Finite 0, Finite 1, Finite 2])
      (PyFloat (Finite 1)) (PyBool False) =
     Inr (NdArray [2, 2] [Finite (1 / 2), Finite 1, Finite (- 1 / 2), Finite (- 1)],
          NdArray [2] [Finite 0, Finite 1], NdArray [3] [Finite 0, Finite 1, Finite 2],
          Finite 1)"
    by (simp add: wiggle_input_check_def rescale_def check_tt_def check_xx_def std_ex1
        min_diff_ex3 max_ex1 float_eval)
  ultimately show ?thesis by simp
qed

lemma std_single: "np_std [Finite 1] = Finite 0" "np_std [Finite 2] = Finite 0"
  by (simp_all add: np_std_def np_sum_def float_eval Let_def)

lemma std_one_row: "np_std_axis0 (Suc 0) 2 [Finite 1, Finite 2] = [Finite 0, Finite 0]"
  by (simp add: np_std_axis0_def column_def upt_0_2 std_single)

text \<open>
  The claim C9 as first stated fails on a two-dimensional array of one row: the array
  \<^verbatim>\<open>[[1, 2]]\<close> passes every check, its standard deviations are \<^verbatim>\<open>0.0\<close>, and the
  call returns the array \<^verbatim>\<open>[[inf, inf]]\<close>.
\<close>

theorem data_not_2d_rejected_counterexample:
  "wiggle_input_check (NdArray [1, 2] [Finite 1, Finite 2]) PyNone PyNone
      (PyFloat (Finite (3 / 20))) (PyBool False) =
     Inr (NdArray [1, 2] [PosInf, PosInf], NdArray [1] [Finite 0],
          NdArray [2] [Finite 0, Finite 1], Finite 1)"
  by (simp add: wiggle_input_check_def rescale_def check_tt_def check_xx_def std_one_row
      arange_def upt_0_2 min_diff_ex np_max_def np_maximum_def float_eval)

theorem data_not_2d_rejected_witness:
  "wiggle_input_check (NdArray [3] [Finite 1, Finite 2, Finite 3]) PyNone PyNone
      (PyFloat (Finite (3 / 20))) (PyBool False) =
     Inl (ValueError ''data must be a 2D array'') \<and>
   wiggle_input_check (NdArray [0] []) PyNone PyNone
      (PyFloat (Finite (3 / 20))) (PyBool False) =
     Inl (ValueError ''data must be a 2D array'')"
  using data_not_2d_rejected [OF refl refl, where dshape = "[3]"
      and dflat = "[Finite 1, Finite 2, Finite 3]" and tt = PyNone and xx = PyNone
      and sf = "PyFloat (Finite (3 / 20))" and v = False]
    data_not_2d_rejected [OF refl refl, where dshape = "[0]" and dflat = "[]"
      and tt = PyNone and xx = PyNone and sf = "PyFloat (Finite (3 / 20))" and v = False]
  by simp

end
